theory Spec2Isabelle
  imports Main "HOL-Library.AList"
begin

section \<open>Errors and identities\<close>

text \<open>
  The exceptions a handler of \<^verbatim>\<open>seshet/bot.py\<close> can raise. A handler that raises
  leaves the bot in the state reached so far, so every stateful operation below returns
  the state together with \<open>Some\<close> exception or \<open>None\<close>.
\<close>

datatype error = KeyError | IndexError | AttributeError | RuntimeError | ImportError | OSError

text \<open>
  Modelled from the spec: \<^verbatim>\<open>IRCstr\<close> lives in \<^verbatim>\<open>seshet/utils.py\<close>, which is not part of
  the sources at hand. The spec describes it as the case-normalized identity whose
  equality and hashing use the IRC case mapping (upper and lower case letters are
  equivalent, and so are \<^verbatim>\<open>{}|^\<close> and \<^verbatim>\<open>[]\~\<close>). An identity is represented by its
  normal form, so that equality of identities is equality of strings.
\<close>

definition irc_lower_char :: "char \<Rightarrow> char" where
  "irc_lower_char c =
     (let n = of_char c :: nat in
      if 65 \<le> n \<and> n \<le> 94 then char_of (n + 32) else c)"

definition IRCstr :: "string \<Rightarrow> string" where
  "IRCstr s = map irc_lower_char s"

section \<open>Channels and the activity cache\<close>

text \<open>
  A log entry is \<^verbatim>\<open>(time, user, message)\<close>; the time is what \<^verbatim>\<open>datetime.utcnow()\<close>
  returned, an input of the model.
\<close>

type_synonym log_entry = "nat \<times> string \<times> string"

record SeshetChannel =
  name :: string
  users :: "string set"
  message_log :: "log_entry list"
  log_size :: int

text \<open>\<^verbatim>\<open>SeshetChannel.__init__(name, users, log_size=100)\<close>\<close>

definition new_channel :: "string \<Rightarrow> string set \<Rightarrow> int \<Rightarrow> SeshetChannel" where
  "new_channel n us sz =
     \<lparr>name = IRCstr n, users = us, message_log = [], log_size = sz\<rparr>"

text \<open>
  The loop \<^verbatim>\<open>while len(self.message_log) > self._log_size: del self.message_log[0]\<close>.
  With a negative size the loop reaches the empty list and \<^verbatim>\<open>del\<close> raises IndexError.
\<close>

fun trim_log :: "int \<Rightarrow> log_entry list \<Rightarrow> error + log_entry list" where
  "trim_log sz [] = (if 0 > sz then Inl IndexError else Inr [])"
| "trim_log sz (x # xs) =
     (if int (length (x # xs)) > sz then trim_log sz xs else Inr (x # xs))"

text \<open>
  The \<^verbatim>\<open>user\<close> argument of \<^verbatim>\<open>log_message\<close>: a \<^verbatim>\<open>SeshetUser\<close> (its nick is taken), an
  \<^verbatim>\<open>IRCstr\<close> (kept) or anything else (converted with \<^verbatim>\<open>IRCstr\<close>).
\<close>

datatype author = AuthorNick string | AuthorIdent string | AuthorRaw string

fun author_ident :: "author \<Rightarrow> string" where
  "author_ident (AuthorNick n) = n"
| "author_ident (AuthorIdent i) = i"
| "author_ident (AuthorRaw s) = IRCstr s"

text \<open>\<^verbatim>\<open>SeshetChannel.log_message\<close>; the list is appended to before the loop runs.\<close>

definition log_message ::
  "nat \<Rightarrow> SeshetChannel \<Rightarrow> author \<Rightarrow> string \<Rightarrow> SeshetChannel \<times> error option" where
  "log_message t c u m =
     (let appended = message_log c @ [(t, author_ident u, m)] in
      case trim_log (log_size c) appended of
        Inl e \<Rightarrow> (c\<lparr>message_log := []\<rparr>, Some e)
      | Inr l \<Rightarrow> (c\<lparr>message_log := l\<rparr>, None))"

text \<open>Logging a sequence of messages in order, stopping at the first exception.\<close>

fun log_messages ::
  "SeshetChannel \<Rightarrow> (nat \<times> author \<times> string) list \<Rightarrow> SeshetChannel \<times> error option" where
  "log_messages c [] = (c, None)"
| "log_messages c ((t, u, m) # ms) =
     (case log_message t c u m of
        (c', Some e) \<Rightarrow> (c', Some e)
      | (c', None) \<Rightarrow> log_messages c' ms)"

definition entry_of :: "nat \<times> author \<times> string \<Rightarrow> log_entry" where
  "entry_of x = (case x of (t, u, m) \<Rightarrow> (t, author_ident u, m))"

section \<open>Users, and the channel objects they share with the bot\<close>

text \<open>
  A \<^verbatim>\<open>SeshetUser\<close> keeps a list of references to channel objects, and the bot's
  \<^verbatim>\<open>channels\<close> dictionary refers to the same objects. \<^verbatim>\<open>SeshetChannel\<close> defines no
  \<^verbatim>\<open>__eq__\<close>, so \<^verbatim>\<open>channel in self.channels\<close> compares object identity. Channel objects
  therefore live in a store, addressed by numbers, and a user's list holds addresses.
  An address that the store does not hold cannot arise in Python (a referenced object
  stays alive); the model leaves the store as it is there.
\<close>

type_synonym addr = nat

type_synonym store = "addr \<rightharpoonup> SeshetChannel"

record SeshetUser =
  nick :: string
  user :: string
  host :: string
  channels :: "addr list"

text \<open>\<^verbatim>\<open>SeshetUser.__init__(nick, user, host)\<close>\<close>

definition new_user :: "string \<Rightarrow> string \<Rightarrow> string \<Rightarrow> SeshetUser" where
  "new_user n u h = \<lparr>nick = IRCstr n, user = u, host = h, channels = []\<rparr>"

text \<open>\<^verbatim>\<open>SeshetUser.join\<close>\<close>

definition join :: "store \<Rightarrow> SeshetUser \<Rightarrow> addr \<Rightarrow> store \<times> SeshetUser" where
  "join h u a =
     (if a \<notin> set (channels u)
      then ((case h a of None \<Rightarrow> h
             | Some c \<Rightarrow> h(a \<mapsto> c\<lparr>users := insert (nick u) (users c)\<rparr>)),
            u\<lparr>channels := channels u @ [a]\<rparr>)
      else (h, u))"

text \<open>
  \<^verbatim>\<open>SeshetUser.part\<close>; \<^verbatim>\<open>set.remove\<close> raises KeyError when the element is missing, and
  \<^verbatim>\<open>list.remove\<close> removes the first occurrence.
\<close>

definition part :: "store \<Rightarrow> SeshetUser \<Rightarrow> addr \<Rightarrow> (store \<times> SeshetUser) \<times> error option" where
  "part h u a =
     (if a \<in> set (channels u)
      then (case h a of None \<Rightarrow> ((h, u), None)
            | Some c \<Rightarrow>
                if nick u \<in> users c
                then ((h(a \<mapsto> c\<lparr>users := users c - {nick u}\<rparr>),
                       u\<lparr>channels := remove1 a (channels u)\<rparr>), None)
                else ((h, u), Some KeyError))
      else ((h, u), None))"

text \<open>The loop of \<^verbatim>\<open>SeshetUser.quit\<close>: \<^verbatim>\<open>for c in self.channels: c.users.remove(self.nick)\<close>\<close>

fun quit_loop :: "store \<Rightarrow> string \<Rightarrow> addr list \<Rightarrow> store \<times> error option" where
  "quit_loop h n [] = (h, None)"
| "quit_loop h n (a # as) =
     (case h a of None \<Rightarrow> quit_loop h n as
      | Some c \<Rightarrow>
          if n \<in> users c
          then quit_loop (h(a \<mapsto> c\<lparr>users := users c - {n}\<rparr>)) n as
          else (h, Some KeyError))"

definition quit :: "store \<Rightarrow> SeshetUser \<Rightarrow> (store \<times> SeshetUser) \<times> error option" where
  "quit h u =
     (case quit_loop h (nick u) (channels u) of
        (h', Some e) \<Rightarrow> ((h', u), Some e)
      | (h', None) \<Rightarrow> ((h', u\<lparr>channels := []\<rparr>), None))"

text \<open>
  The loop of \<^verbatim>\<open>SeshetUser.change_nick\<close>:
  \<^verbatim>\<open>for c in self.channels: c.users.remove(old_nick); c.users.add(self.nick)\<close>
\<close>

fun change_nick_loop :: "store \<Rightarrow> string \<Rightarrow> string \<Rightarrow> addr list \<Rightarrow> store \<times> error option" where
  "change_nick_loop h old new [] = (h, None)"
| "change_nick_loop h old new (a # as) =
     (case h a of None \<Rightarrow> change_nick_loop h old new as
      | Some c \<Rightarrow>
          if old \<in> users c
          then change_nick_loop
                 (h(a \<mapsto> c\<lparr>users := insert new (users c - {old})\<rparr>)) old new as
          else (h, Some KeyError))"

text \<open>The nick is assigned before the loop, so it is changed even when the loop raises.\<close>

definition change_nick ::
  "store \<Rightarrow> SeshetUser \<Rightarrow> string \<Rightarrow> (store \<times> SeshetUser) \<times> error option" where
  "change_nick h u n =
     (let old_nick = nick u; u' = u\<lparr>nick := IRCstr n\<rparr> in
      case change_nick_loop h old_nick (nick u') (channels u') of
        (h', r) \<Rightarrow> ((h', u'), r))"

section \<open>Events, modules and the bot\<close>

text \<open>
  An event as the IRC client library hands it over: the fields the handlers read.
  \<^verbatim>\<open>channel\<close> and \<^verbatim>\<open>name_list\<close> are those of a names reply.
\<close>

record event =
  command :: string
  source :: string
  target :: string
  message :: string
  e_user :: string
  e_host :: string
  params :: "string list"
  channel :: string
  name_list :: "string list"

text \<open>
  A row of the \<^verbatim>\<open>modules\<close> table. \<^verbatim>\<open>commands\<close> is what \<^verbatim>\<open>__import__(mod.name).commands\<close>
  holds, in the order of the dictionary: command words with their handlers, \<open>None\<close>
  when the import fails. A handler is code outside this repository: it is named by a
  number, and calling it is recorded.
\<close>

record module =
  mod_name :: string
  cmd_prefix :: string
  event_types :: "string list"
  enabled :: bool
  whitelist :: "string list"
  blacklist :: "string list"
  enicks :: "string list"
  dnicks :: "string list"
  echannels :: "string list"
  dchannels :: "string list"
  commands :: "(string \<times> nat) list option"

text \<open>A row of the \<^verbatim>\<open>event_log\<close> table, as \<^verbatim>\<open>SeshetBot.log\<close> inserts it.\<close>

record log_row =
  event_type :: string
  event_time :: nat
  row_source :: string
  row_target :: string
  row_message :: string
  row_host :: string
  row_params :: string

record database =
  event_log :: "log_row list"
  modules :: "module list"

text \<open>
  The bot. \<^verbatim>\<open>channels\<close> and \<^verbatim>\<open>users\<close> are dictionaries, which keep insertion order:
  association lists with \<open>AList.update\<close> (replace in place, or append) and
  \<open>AList.delete\<close>. \<open>heap\<close> and \<open>next_addr\<close> hold the channel objects; \<open>utcnow\<close> is what
  \<^verbatim>\<open>datetime.utcnow()\<close> returns; \<open>dirs\<close> and \<open>files\<close> are the directories that exist and
  the lines appended to files; \<open>invoked\<close> records the handler calls, each with the event
  it was given.
\<close>

record SeshetBot =
  nickname :: string
  bot_user :: string
  real_name :: string
  log_file :: string
  log_formats :: "string \<rightharpoonup> string"
  bot_locale :: "string \<rightharpoonup> string"
  bot_channels :: "(string \<times> addr) list"
  bot_users :: "(string \<times> SeshetUser) list"
  db :: "database option"
  heap :: store
  next_addr :: addr
  utcnow :: nat
  dirs :: "string set"
  files :: "(string \<times> string) list"
  invoked :: "(nat \<times> event) list"

text \<open>\<^verbatim>\<open>SeshetBot.__init__(nick, db)\<close>: the defaults it defines.\<close>

definition init_bot :: "string \<Rightarrow> database option \<Rightarrow> SeshetBot" where
  "init_bot n d =
     \<lparr>nickname = n, bot_user = n, real_name = n, log_file = ''seshet.log'',
      log_formats = Map.empty, bot_locale = Map.empty, bot_channels = [], bot_users = [],
      db = d, heap = Map.empty, next_addr = 0, utcnow = 0, dirs = {}, files = [],
      invoked = []\<rparr>"

section \<open>Strings\<close>

text \<open>
  The string methods the dispatcher uses, on byte strings: \<^verbatim>\<open>lower\<close> (ASCII letters),
  \<^verbatim>\<open>startswith\<close>, \<^verbatim>\<open>lstrip(chars)\<close>, \<^verbatim>\<open>split()\<close> on runs of ASCII whitespace, and
  \<^verbatim>\<open>' '.join\<close>.
\<close>

definition lower_char :: "char \<Rightarrow> char" where
  "lower_char c =
     (let n = of_char c :: nat in
      if 65 \<le> n \<and> n \<le> 90 then char_of (n + 32) else c)"

definition str_lower :: "string \<Rightarrow> string" where
  "str_lower s = map lower_char s"

definition startswith :: "string \<Rightarrow> string \<Rightarrow> bool" where
  "startswith s p = (take (length p) s = p)"

definition str_lstrip :: "string \<Rightarrow> string \<Rightarrow> string" where
  "str_lstrip chars s = dropWhile (\<lambda>c. c \<in> set chars) s"

definition is_space :: "char \<Rightarrow> bool" where
  "is_space c =
     (let n = of_char c :: nat in n = 32 \<or> (9 \<le> n \<and> n \<le> 13) \<or> (28 \<le> n \<and> n \<le> 31))"

fun split_ws :: "string \<Rightarrow> string \<Rightarrow> string list" where
  "split_ws [] cur = (if cur = [] then [] else [cur])"
| "split_ws (c # cs) cur =
     (if is_space c
      then (if cur = [] then split_ws cs [] else cur # split_ws cs [])
      else split_ws cs (cur @ [c]))"

definition str_split :: "string \<Rightarrow> string list" where
  "str_split s = split_ws s []"

fun join_sp :: "string list \<Rightarrow> string" where
  "join_sp [] = []"
| "join_sp [x] = x"
| "join_sp (x # y # ys) = x @ '' '' @ join_sp (y # ys)"

section \<open>Module dispatch\<close>

text \<open>
  The state of the selection loop of \<^verbatim>\<open>run_modules\<close>: the event, whose message the
  address gate rewrites in place, the flag \<^verbatim>\<open>for_us\<close>, and \<^verbatim>\<open>fin_mods\<close>.
\<close>

record dispatch =
  d_event :: event
  for_us :: bool
  fin_mods :: "module list"

text \<open>\<^verbatim>\<open>if e.source in mod.whitelist: ... elif e.source in mod.blacklist: pass\<close>\<close>

definition gate_user :: "event \<Rightarrow> module \<Rightarrow> module list \<Rightarrow> module list" where
  "gate_user e m fin =
     (if source e \<in> set (whitelist m) then fin @ [m]
      else if source e \<in> set (blacklist m) then fin
      else fin)"

definition strip_prefix :: "string \<Rightarrow> event \<Rightarrow> event" where
  "strip_prefix p e = e\<lparr>message := str_lstrip '',: '' (drop (length p) (message e))\<rparr>"

text \<open>
  \<^verbatim>\<open>if self.nickname in mod.enicks: ...\<close>. \<open>m_low\<close> is the lowered message as it was
  before the loop; it is not computed again after a prefix is stripped.
\<close>

definition gate_address :: "SeshetBot \<Rightarrow> string \<Rightarrow> module \<Rightarrow> dispatch \<Rightarrow> dispatch" where
  "gate_address s m_low m d =
     (let bot_n = str_lower (nickname s);
          bot_u = str_lower (bot_user s);
          bot_r = str_lower (real_name s);
          e = d_event d
      in if nickname s \<in> set (enicks m)
         then if target e = nickname s \<or> for_us d
              then d\<lparr>fin_mods := fin_mods d @ [m]\<rparr>
              else if startswith m_low bot_n
              then d\<lparr>d_event := strip_prefix bot_n e,
                     fin_mods := fin_mods d @ [m], for_us := True\<rparr>
              else if startswith m_low bot_u
              then d\<lparr>d_event := strip_prefix bot_u e,
                     fin_mods := fin_mods d @ [m], for_us := True\<rparr>
              else if startswith m_low bot_r
              then d\<lparr>d_event := strip_prefix bot_r e,
                     fin_mods := fin_mods d @ [m], for_us := True\<rparr>
              else d
         else d)"

text \<open>
  \<^verbatim>\<open>if chan_msg: ...\<close>; \<open>cn\<close> is \<open>Some chan_nicks\<close> for a channel message. The module's
  nick lists hold plain strings and \<^verbatim>\<open>chan_nicks\<close> holds identities; following the
  spec, which has both as sets of identities, the strings are normalised before the
  sets are intersected.
\<close>

definition gate_channel ::
  "event \<Rightarrow> string set option \<Rightarrow> module \<Rightarrow> module list \<Rightarrow> module list" where
  "gate_channel e cn m fin =
     (case cn of None \<Rightarrow> fin
      | Some chan_nicks \<Rightarrow>
          if target e \<in> set (dchannels m) then fin
          else if IRCstr ` set (dnicks m) \<inter> chan_nicks \<noteq> {} then fin
          else if target e \<in> set (echannels m) then fin @ [m]
          else if IRCstr ` set (enicks m) \<inter> chan_nicks \<noteq> {} then fin @ [m]
          else fin)"

definition select_step ::
  "SeshetBot \<Rightarrow> string \<Rightarrow> string set option \<Rightarrow> module \<Rightarrow> dispatch \<Rightarrow> dispatch" where
  "select_step s m_low cn m d =
     (let d1 = d\<lparr>fin_mods := gate_user (d_event d) m (fin_mods d)\<rparr>;
          d2 = gate_address s m_low m d1
      in d2\<lparr>fin_mods := gate_channel (d_event d2) cn m (fin_mods d2)\<rparr>)"

text \<open>\<^verbatim>\<open>for mod in init_mods: ...\<close>\<close>

fun select_loop ::
  "SeshetBot \<Rightarrow> string \<Rightarrow> string set option \<Rightarrow> module list \<Rightarrow> dispatch \<Rightarrow> dispatch" where
  "select_loop s m_low cn [] d = d"
| "select_loop s m_low cn (m # ms) d = select_loop s m_low cn ms (select_step s m_low cn m d)"

text \<open>
  \<^verbatim>\<open>for cmd, fun in m.commands.items(): if (mod.cmd_prefix + cmd) == argv[0]: ...\<close>:
  the handler of the first match, or IndexError from \<^verbatim>\<open>argv[0]\<close> when the message
  has no token.
\<close>

fun scan_commands ::
  "string \<Rightarrow> string list \<Rightarrow> (string \<times> nat) list \<Rightarrow> nat option \<times> error option" where
  "scan_commands pre argv [] = (None, None)"
| "scan_commands pre argv ((cmd, f) # cs) =
     (case argv of [] \<Rightarrow> (None, Some IndexError)
      | a # _ \<Rightarrow> if pre @ cmd = a then (Some f, None) else scan_commands pre argv cs)"

text \<open>\<^verbatim>\<open>for mod in fin_mods: ...\<close>; the call \<^verbatim>\<open>fun(self, e)\<close> is recorded in \<open>invoked\<close>.\<close>

fun invoke_loop ::
  "SeshetBot \<Rightarrow> event \<Rightarrow> string list \<Rightarrow> module list \<Rightarrow> SeshetBot \<times> error option" where
  "invoke_loop s e argv [] = (s, None)"
| "invoke_loop s e argv (m # ms) =
     (case commands m of None \<Rightarrow> (s, Some ImportError)
      | Some cs \<Rightarrow>
          (case scan_commands (cmd_prefix m) argv cs of
             (_, Some x) \<Rightarrow> (s, Some x)
           | (Some f, None) \<Rightarrow> invoke_loop (s\<lparr>invoked := invoked s @ [(f, e)]\<rparr>) e argv ms
           | (None, None) \<Rightarrow> invoke_loop s e argv ms))"

text \<open>
  \<^verbatim>\<open>chan_nicks = self.channels[e.target].users\<close>: the dictionary is keyed by identities,
  and the plain string is looked up as its identity.
\<close>

definition chan_nicks_of :: "SeshetBot \<Rightarrow> event \<Rightarrow> error + string set option" where
  "chan_nicks_of s e =
     (if startswith (target e) ''#''
      then (case map_of (bot_channels s) (IRCstr (target e)) of
              None \<Rightarrow> Inl KeyError
            | Some a \<Rightarrow> Inr (Some (case heap s a of None \<Rightarrow> {} | Some c \<Rightarrow> users c)))
      else Inr None)"

text \<open>
  \<^verbatim>\<open>SeshetBot.run_modules\<close>, with the database the bot was built with. \<^verbatim>\<open>argv\<close> is split
  from \<open>m_low\<close>, the lowered message of before the selection loop.
\<close>

definition run_modules :: "SeshetBot \<Rightarrow> database \<Rightarrow> event \<Rightarrow> SeshetBot \<times> error option" where
  "run_modules s d e =
     (let init_mods = filter (\<lambda>m. command e \<in> set (event_types m) \<and> enabled m) (modules d)
      in if command e \<in> set [''PRIVMSG'', ''CTCP_ACTION'', ''NOTICE'']
         then (let m_low = str_lower (message e)
               in case chan_nicks_of s e of
                    Inl x \<Rightarrow> (s, Some x)
                  | Inr cn \<Rightarrow>
                      (let sel = select_loop s m_low cn init_mods
                                   \<lparr>d_event = e, for_us = False, fin_mods = []\<rparr>;
                           argv = str_split m_low
                       in invoke_loop s (d_event sel) argv (fin_mods sel)))
         else (s, None))"

text \<open>
  \<^verbatim>\<open>self.run_modules\<close>: without a database \<^verbatim>\<open>__init__\<close> binds it to \<^verbatim>\<open>_run_only_core\<close>,
  whose body is \<^verbatim>\<open>pass\<close>.
\<close>

definition bot_run_modules :: "SeshetBot \<Rightarrow> event \<Rightarrow> SeshetBot \<times> error option" where
  "bot_run_modules s e =
     (case db s of None \<Rightarrow> (s, None) | Some d \<Rightarrow> run_modules s d e)"

section \<open>Logging\<close>

text \<open>
  The local variables of \<^verbatim>\<open>_log_to_file\<close> that the templates are formatted with
  (\<^verbatim>\<open>format(**locals())\<close>).
\<close>

record log_fields =
  l_etype :: string
  l_source :: string
  l_msg :: string
  l_target :: string
  l_hostmask :: string
  l_params :: string
  l_date :: string
  l_time :: string
  l_datetime_s :: string
  l_datetime_l :: string

text \<open>
  Library functions the file logger calls and this repository does not define:
  \<^verbatim>\<open>datetime.strftime\<close>, \<^verbatim>\<open>str.format\<close> (which raises on a template it cannot fill)
  and \<^verbatim>\<open>os.path.expanduser\<close>. They are parameters of the model.
\<close>

record os_env =
  strftime :: "nat \<Rightarrow> string \<Rightarrow> string"
  str_format :: "string \<Rightarrow> log_fields \<Rightarrow> error + string"
  expanduser :: "string \<Rightarrow> string"

text \<open>\<^verbatim>\<open>os.path.dirname\<close> for POSIX paths.\<close>

definition dirname :: "string \<Rightarrow> string" where
  "dirname p =
     (let head = rev (dropWhile (\<lambda>c. c \<noteq> CHR ''/'') (rev p))
      in if head \<noteq> [] \<and> filter (\<lambda>c. c \<noteq> CHR ''/'') head \<noteq> []
         then rev (dropWhile (\<lambda>c. c = CHR ''/'') (rev head))
         else head)"

text \<open>\<^verbatim>\<open>SeshetBot.log\<close>: the database strategy.\<close>

definition log_db ::
  "SeshetBot \<Rightarrow> database \<Rightarrow> string \<Rightarrow> string \<Rightarrow> string \<Rightarrow> string \<Rightarrow> string \<Rightarrow> string
     \<Rightarrow> SeshetBot" where
  "log_db s d etype src msg tgt hostmask prms =
     s\<lparr>db := Some (d\<lparr>event_log := event_log d @
          [\<lparr>event_type = etype, event_time = utcnow s, row_source = src, row_target = tgt,
            row_message = msg, row_host = hostmask, row_params = prms\<rparr>]\<rparr>)\<rparr>"

text \<open>The fields handed to the templates; \<open>tgt\<close> is the target after the rewrite.\<close>

definition fields_of ::
  "os_env \<Rightarrow> SeshetBot \<Rightarrow> string \<Rightarrow> string \<Rightarrow> string \<Rightarrow> string \<Rightarrow> string
     \<Rightarrow> string \<Rightarrow> string \<Rightarrow> string \<Rightarrow> string \<Rightarrow> string \<Rightarrow> log_fields" where
  "fields_of E s df tf sf lf etype src msg tgt hostmask prms =
     \<lparr>l_etype = etype, l_source = src, l_msg = msg, l_target = tgt,
      l_hostmask = hostmask, l_params = prms,
      l_date = strftime E (utcnow s) df, l_time = strftime E (utcnow s) tf,
      l_datetime_s = strftime E (utcnow s) sf, l_datetime_l = strftime E (utcnow s) lf\<rparr>"

text \<open>
  The part of \<^verbatim>\<open>_log_to_file\<close> under \<^verbatim>\<open>if etype in self.log_formats\<close>.
  \<^verbatim>\<open>os.makedirs\<close> raises on the empty path, which \<^verbatim>\<open>dirname\<close> returns for a path
  without a directory.
\<close>

definition write_line ::
  "os_env \<Rightarrow> SeshetBot \<Rightarrow> string \<Rightarrow> log_fields \<Rightarrow> SeshetBot \<times> error option" where
  "write_line E s tpl flds =
     (case str_format E (log_file s) flds of
        Inl x \<Rightarrow> (s, Some x)
      | Inr p \<Rightarrow>
          (let file_path = expanduser E p; file_dir = dirname file_path
           in if file_dir \<notin> dirs s \<and> file_dir = []
              then (s, Some OSError)
              else (let s1 = s\<lparr>dirs := insert file_dir (dirs s)\<rparr>
                    in case str_format E tpl flds of
                         Inl x \<Rightarrow> (s1, Some x)
                       | Inr line \<Rightarrow>
                           (s1\<lparr>files := files s1 @ [(file_path, line @ [CHR 0x0A])]\<rparr>,
                            None))))"

text \<open>
  \<^verbatim>\<open>SeshetBot._log_to_file\<close>. The four \<^verbatim>\<open>self.locale[...]\<close> lookups come first and raise
  KeyError on a locale that lacks the key.
\<close>

definition log_to_file ::
  "os_env \<Rightarrow> SeshetBot \<Rightarrow> string \<Rightarrow> string \<Rightarrow> string \<Rightarrow> string \<Rightarrow> string \<Rightarrow> string
     \<Rightarrow> SeshetBot \<times> error option" where
  "log_to_file E s etype src msg tgt hostmask prms =
     (case bot_locale s ''date_fmt'' of None \<Rightarrow> (s, Some KeyError) | Some df \<Rightarrow>
      case bot_locale s ''time_fmt'' of None \<Rightarrow> (s, Some KeyError) | Some tf \<Rightarrow>
      case bot_locale s ''short_datetime_fmt'' of None \<Rightarrow> (s, Some KeyError) | Some sf \<Rightarrow>
      case bot_locale s ''long_datetime_fmt'' of None \<Rightarrow> (s, Some KeyError) | Some lf \<Rightarrow>
        (let tgt' = (if tgt = nickname s \<and> etype \<in> set [''privmsg'', ''action'']
                     then src else tgt)
         in case log_formats s etype of
              None \<Rightarrow> (s, None)
            | Some tpl \<Rightarrow>
                write_line E s tpl
                  (fields_of E s df tf sf lf etype src msg tgt' hostmask prms)))"

text \<open>
  \<^verbatim>\<open>self.log\<close>: without a database \<^verbatim>\<open>__init__\<close> binds it to \<^verbatim>\<open>_log_to_file\<close>.
\<close>

definition bot_log ::
  "os_env \<Rightarrow> SeshetBot \<Rightarrow> string \<Rightarrow> string \<Rightarrow> string \<Rightarrow> string \<Rightarrow> string \<Rightarrow> string
     \<Rightarrow> SeshetBot \<times> error option" where
  "bot_log E s etype src msg tgt hostmask prms =
     (case db s of
        None \<Rightarrow> log_to_file E s etype src msg tgt hostmask prms
      | Some d \<Rightarrow> (log_db s d etype src msg tgt hostmask prms, None))"

section \<open>Event handlers\<close>

text \<open>\<^verbatim>\<open>_add_channel_names\<close>: a new channel object, with the default \<^verbatim>\<open>log_size\<close>.\<close>

definition add_channel_names :: "SeshetBot \<Rightarrow> event \<Rightarrow> SeshetBot" where
  "add_channel_names s e =
     (let chan = IRCstr (channel e);
          names = set (map IRCstr (name_list e));
          a = next_addr s
      in s\<lparr>heap := (heap s)(a \<mapsto> new_channel chan names 100),
            next_addr := Suc a,
            bot_channels := AList.update chan a (bot_channels s)\<rparr>)"

text \<open>\<^verbatim>\<open>SeshetBot.get_unique_users\<close>\<close>

fun other_users_loop :: "store \<Rightarrow> string \<Rightarrow> addr list \<Rightarrow> string set \<Rightarrow> string set" where
  "other_users_loop h chan [] acc = acc"
| "other_users_loop h chan (a # as) acc =
     (case h a of None \<Rightarrow> other_users_loop h chan as acc
      | Some c \<Rightarrow>
          other_users_loop h chan as (if name c \<noteq> chan then acc \<union> users c else acc))"

definition get_unique_users :: "SeshetBot \<Rightarrow> string \<Rightarrow> error + string set" where
  "get_unique_users s ch =
     (let chan = IRCstr ch
      in case map_of (bot_channels s) chan of
           None \<Rightarrow> Inl KeyError
         | Some a \<Rightarrow>
             (let these_users = (case heap s a of None \<Rightarrow> {} | Some c \<Rightarrow> users c);
                  other_users = other_users_loop (heap s) chan (map snd (bot_channels s)) {}
              in Inr (these_users - other_users)))"

text \<open>\<^verbatim>\<open>SeshetBot.on_message\<close>\<close>

definition on_message :: "os_env \<Rightarrow> SeshetBot \<Rightarrow> event \<Rightarrow> SeshetBot \<times> error option" where
  "on_message E s e =
     (case bot_log E s ''privmsg'' (source e) (message e) (target e) [] [] of
        (s1, Some x) \<Rightarrow> (s1, Some x)
      | (s1, None) \<Rightarrow>
          (case map_of (bot_channels s1) (IRCstr (target e)) of
             None \<Rightarrow> bot_run_modules s1 e
           | Some a \<Rightarrow>
               (case heap s1 a of
                  None \<Rightarrow> bot_run_modules s1 e
                | Some c \<Rightarrow>
                    (case log_message (utcnow s1) c (AuthorRaw (source e)) (message e) of
                       (c', Some x) \<Rightarrow> (s1\<lparr>heap := (heap s1)(a \<mapsto> c')\<rparr>, Some x)
                     | (c', None) \<Rightarrow>
                         bot_run_modules (s1\<lparr>heap := (heap s1)(a \<mapsto> c')\<rparr>) e))))"

text \<open>\<^verbatim>\<open>SeshetBot.on_join\<close>\<close>

definition on_join :: "os_env \<Rightarrow> SeshetBot \<Rightarrow> event \<Rightarrow> SeshetBot \<times> error option" where
  "on_join E s e =
     (case bot_log E s ''join'' (source e) [] (target e) (e_user e @ ''@'' @ e_host e) [] of
        (s1, Some x) \<Rightarrow> (s1, Some x)
      | (s1, None) \<Rightarrow>
          (let chan = IRCstr (target e); n = IRCstr (source e)
           in if source e \<noteq> nickname s1
              then (let s2 = (case map_of (bot_users s1) n of
                                None \<Rightarrow> s1\<lparr>bot_users := AList.update n
                                          (new_user n (e_user e) (e_host e)) (bot_users s1)\<rparr>
                              | Some _ \<Rightarrow> s1)
                    in case map_of (bot_users s2) n of
                         None \<Rightarrow> (s2, Some KeyError)
                       | Some u \<Rightarrow>
                           (case map_of (bot_channels s2) chan of
                              None \<Rightarrow> (s2, Some KeyError)
                            | Some a \<Rightarrow>
                                (case join (heap s2) u a of
                                   (h', u') \<Rightarrow>
                                     bot_run_modules
                                       (s2\<lparr>heap := h',
                                            bot_users := AList.update n u' (bot_users s2)\<rparr>)
                                       e)))
              else bot_run_modules s1 e))"

text \<open>
  The loop that \<^verbatim>\<open>on_part\<close> and \<^verbatim>\<open>on_kick\<close> run when the bot itself left:
  \<^verbatim>\<open>for u in self.users.values(): ...; if len(u.channels) == 0: del self.users[u.nick]\<close>.
  It runs over the entries the dictionary held when the loop began. A dictionary that
  changed size makes the next step of its iterator raise RuntimeError, also when no
  entry is left to visit, so the loop ends with that exception right after the first
  deletion.
\<close>

fun prune_loop ::
  "SeshetBot \<Rightarrow> addr \<Rightarrow> (string \<times> SeshetUser) list \<Rightarrow> SeshetBot \<times> error option" where
  "prune_loop s a [] = (s, None)"
| "prune_loop s a ((k, u) # rest) =
     (let u1 = (if a \<in> set (channels u)
                then u\<lparr>channels := remove1 a (channels u)\<rparr> else u);
          s1 = s\<lparr>bot_users := AList.update k u1 (bot_users s)\<rparr>
      in if length (channels u1) = 0
         then (case map_of (bot_users s1) (nick u1) of
                 None \<Rightarrow> (s1, Some KeyError)
               | Some _ \<Rightarrow>
                   (s1\<lparr>bot_users := AList.delete (nick u1) (bot_users s1)\<rparr>,
                    Some RuntimeError))
         else prune_loop s1 a rest)"

text \<open>
  What \<^verbatim>\<open>on_part\<close> and \<^verbatim>\<open>on_kick\<close> do after logging. \<^verbatim>\<open>nick == self.nickname\<close> compares
  an identity with a plain string, which is the equality of identities.
\<close>

definition leave_channel :: "SeshetBot \<Rightarrow> event \<Rightarrow> SeshetBot \<times> error option" where
  "leave_channel s e =
     (let chan = IRCstr (target e); n = IRCstr (source e)
      in case map_of (bot_channels s) chan of
           None \<Rightarrow> (s, Some KeyError)
         | Some a \<Rightarrow>
             (case map_of (bot_users s) n of
                None \<Rightarrow> (s, Some KeyError)
              | Some u \<Rightarrow>
                  (case part (heap s) u a of
                     ((h', u'), r) \<Rightarrow>
                       (let s1 = s\<lparr>heap := h', bot_users := AList.update n u' (bot_users s)\<rparr>
                        in case r of
                             Some x \<Rightarrow> (s1, Some x)
                           | None \<Rightarrow>
                               if n = IRCstr (nickname s1)
                               then prune_loop s1 a (bot_users s1)
                               else (s1, None)))))"

text \<open>\<^verbatim>\<open>SeshetBot.on_part\<close>\<close>

definition on_part :: "os_env \<Rightarrow> SeshetBot \<Rightarrow> event \<Rightarrow> SeshetBot \<times> error option" where
  "on_part E s e =
     (case bot_log E s ''part'' (source e) (join_sp (drop 1 (params e))) (target e)
             (e_user e @ ''@'' @ e_host e) [] of
        (s1, Some x) \<Rightarrow> (s1, Some x)
      | (s1, None) \<Rightarrow> leave_channel s1 e)"

text \<open>\<^verbatim>\<open>SeshetBot.on_kick\<close>; \<^verbatim>\<open>e.params[0]\<close> raises IndexError on an empty list.\<close>

definition on_kick :: "os_env \<Rightarrow> SeshetBot \<Rightarrow> event \<Rightarrow> SeshetBot \<times> error option" where
  "on_kick E s e =
     (case params e of
        [] \<Rightarrow> (s, Some IndexError)
      | p # ps \<Rightarrow>
          (case bot_log E s ''kick'' (source e) (join_sp ps) (target e)
                  (e_user e @ ''@'' @ e_host e) p of
             (s1, Some x) \<Rightarrow> (s1, Some x)
           | (s1, None) \<Rightarrow> leave_channel s1 e))"

text \<open>
  The first loop of \<^verbatim>\<open>on_quit\<close>: one log entry for each channel that holds the nick.
\<close>

fun quit_log_loop ::
  "os_env \<Rightarrow> SeshetBot \<Rightarrow> event \<Rightarrow> addr list \<Rightarrow> SeshetBot \<times> error option" where
  "quit_log_loop E s e [] = (s, None)"
| "quit_log_loop E s e (a # as) =
     (case heap s a of
        None \<Rightarrow> quit_log_loop E s e as
      | Some c \<Rightarrow>
          if IRCstr (source e) \<in> users c
          then (case bot_log E s ''quit'' (source e) (join_sp (params e)) (name c)
                       (e_user e @ ''@'' @ e_host e) [] of
                  (s1, Some x) \<Rightarrow> (s1, Some x)
                | (s1, None) \<Rightarrow> quit_log_loop E s1 e as)
          else quit_log_loop E s e as)"

text \<open>\<^verbatim>\<open>SeshetBot.on_quit\<close>\<close>

definition on_quit :: "os_env \<Rightarrow> SeshetBot \<Rightarrow> event \<Rightarrow> SeshetBot \<times> error option" where
  "on_quit E s e =
     (let n = IRCstr (source e)
      in case quit_log_loop E s e (map snd (bot_channels s)) of
           (s1, Some x) \<Rightarrow> (s1, Some x)
         | (s1, None) \<Rightarrow>
             (case map_of (bot_users s1) n of
                None \<Rightarrow> (s1, Some KeyError)
              | Some u \<Rightarrow>
                  (case quit (heap s1) u of
                     ((h', u'), r) \<Rightarrow>
                       (let s2 = s1\<lparr>heap := h', bot_users := AList.update n u' (bot_users s1)\<rparr>
                        in case r of
                             Some x \<Rightarrow> (s2, Some x)
                           | None \<Rightarrow> (s2\<lparr>bot_users := AList.delete n (bot_users s2)\<rparr>, None)))))"

text \<open>
  \<^verbatim>\<open>SeshetBot.on_nick_change\<close>. Its first loop reads \<^verbatim>\<open>chan.user_list\<close> of every channel
  of the bot; \<^verbatim>\<open>SeshetChannel\<close> has no such attribute, so the first channel visited
  raises AttributeError. With no channel the loop body does not run.
\<close>

definition on_nick_change :: "os_env \<Rightarrow> SeshetBot \<Rightarrow> event \<Rightarrow> SeshetBot \<times> error option" where
  "on_nick_change E s e =
     (let new_nick = IRCstr (target e); old_nick = IRCstr (source e)
      in case bot_channels s of
           _ # _ \<Rightarrow> (s, Some AttributeError)
         | [] \<Rightarrow>
             (case map_of (bot_users s) old_nick of
                None \<Rightarrow> (s, Some KeyError)
              | Some u \<Rightarrow>
                  (case change_nick (heap s) u new_nick of
                     ((h', u'), r) \<Rightarrow>
                       (let s1 = s\<lparr>heap := h',
                                    bot_users := AList.update old_nick u' (bot_users s)\<rparr>
                        in case r of
                             Some x \<Rightarrow> (s1, Some x)
                           | None \<Rightarrow>
                               (s1\<lparr>bot_users := AList.delete old_nick
                                      (AList.update new_nick u' (bot_users s1))\<rparr>, None)))))"

text \<open>
  The events that change the roster, each delivered to its handler. A handler that
  raises leaves the state it reached; \<open>run_events\<close> gives the state after each event
  of a sequence.
\<close>

datatype kind = JOIN | PART | KICK | QUIT | NICK

fun handle :: "os_env \<Rightarrow> SeshetBot \<Rightarrow> kind \<times> event \<Rightarrow> SeshetBot \<times> error option" where
  "handle E s (JOIN, e) = on_join E s e"
| "handle E s (PART, e) = on_part E s e"
| "handle E s (KICK, e) = on_kick E s e"
| "handle E s (QUIT, e) = on_quit E s e"
| "handle E s (NICK, e) = on_nick_change E s e"

fun run_events :: "os_env \<Rightarrow> SeshetBot \<Rightarrow> (kind \<times> event) list \<Rightarrow> SeshetBot list" where
  "run_events E s [] = []"
| "run_events E s (ev # evs) =
     (let s' = fst (handle E s ev) in s' # run_events E s' evs)"

section \<open>Properties and sample states\<close>

text \<open>
  The bidirectional membership invariant: for every user and every channel of the
  roster, the channel is in the user's list exactly when the channel's user set holds
  the user's nick.
\<close>

definition membership_invariant :: "SeshetBot \<Rightarrow> bool" where
  "membership_invariant s =
     list_all (\<lambda>(k, u).
       list_all (\<lambda>(n, a).
         case heap s a of None \<Rightarrow> True
         | Some c \<Rightarrow> (a \<in> set (channels u)) = (nick u \<in> users c))
       (bot_channels s))
     (bot_users s)"

text \<open>The channel object that the bot knows under a name.\<close>

definition chan_view :: "SeshetBot \<Rightarrow> string \<Rightarrow> SeshetChannel option" where
  "chan_view s k = (case map_of (bot_channels s) k of None \<Rightarrow> None | Some a \<Rightarrow> heap s a)"

text \<open>The users dictionary, as keys with the nick and channel list of each user.\<close>

definition roster_view :: "SeshetBot \<Rightarrow> (string \<times> string \<times> addr list) list" where
  "roster_view s = map (\<lambda>(k, u). (k, nick u, channels u)) (bot_users s)"

text \<open>
  Every channel is stored under its own name, as \<^verbatim>\<open>_add_channel_names\<close> stores it.
\<close>

definition keys_are_names :: "SeshetBot \<Rightarrow> bool" where
  "keys_are_names s =
     list_all (\<lambda>(k, b). case heap s b of None \<Rightarrow> True | Some c \<Rightarrow> name c = k)
       (bot_channels s)"

text \<open>
  A new object is none of the existing ones: the addresses in use lie below the next
  one to be given out.
\<close>

definition alloc_ok :: "SeshetBot \<Rightarrow> bool" where
  "alloc_ok s = list_all (\<lambda>(k, b). b < next_addr s) (bot_channels s)"

text \<open>
  A concrete environment and concrete events and bots, to evaluate the handlers on.
  The environment's \<open>str_format\<close> appends the target field to the template.
\<close>

definition plain_env :: os_env where
  "plain_env = \<lparr>strftime = (\<lambda>t f. f), str_format = (\<lambda>tpl f. Inr (tpl @ l_target f)),
                 expanduser = (\<lambda>p. p)\<rparr>"

definition mk_event :: "string \<Rightarrow> string \<Rightarrow> string \<Rightarrow> string \<Rightarrow> event" where
  "mk_event cmd src tgt msg =
     \<lparr>command = cmd, source = src, target = tgt, message = msg, e_user = ''u'',
      e_host = ''h'', params = [], channel = [], name_list = []\<rparr>"

definition names_reply :: "string \<Rightarrow> string list \<Rightarrow> event" where
  "names_reply ch ns = (mk_event ''353'' [] [] [])\<lparr>channel := ch, name_list := ns\<rparr>"

text \<open>A bot named Bot with a database and no modules.\<close>

definition bot0 :: SeshetBot where
  "bot0 = init_bot ''Bot'' (Some \<lparr>event_log = [], modules = []\<rparr>)"

text \<open>The bot after it joined \<^verbatim>\<open>#c\<close>, received its names and saw A join.\<close>

definition bot1 :: SeshetBot where
  "bot1 = fst (on_join plain_env (add_channel_names bot0 (names_reply ''#c'' [''Bot'']))
                 (mk_event ''JOIN'' ''A'' ''#c'' []))"

text \<open>The end-to-end scenario: \<^verbatim>\<open>#test\<close> with A, B and the bot, and a module for \<^verbatim>\<open>ping\<close>.\<close>

definition ping_module :: module where
  "ping_module =
     \<lparr>mod_name = ''ping'', cmd_prefix = [], event_types = [''PRIVMSG''], enabled = True,
      whitelist = [], blacklist = [], enicks = [''Bot''], dnicks = [], echannels = [],
      dchannels = [], commands = Some [(''ping'', 7)]\<rparr>"

definition ping_bot :: SeshetBot where
  "ping_bot = add_channel_names
     (init_bot ''Bot'' (Some \<lparr>event_log = [], modules = [ping_module]\<rparr>))
     (names_reply ''#test'' [''A'', ''B'', ''Bot''])"

definition ping_event :: event where
  "ping_event = mk_event ''PRIVMSG'' ''A'' ''#test'' ''Bot: ping''"

text \<open>A channel \<^verbatim>\<open>#c\<close> with one message in its log.\<close>

definition names_bot :: SeshetBot where
  "names_bot = add_channel_names bot0 (names_reply ''#c'' [''A''])"

definition chatty_bot :: SeshetBot where
  "chatty_bot = fst (on_message plain_env names_bot (mk_event ''PRIVMSG'' ''A'' ''#c'' ''hi''))"

text \<open>A bot without a database, with a locale and a template for \<^verbatim>\<open>privmsg\<close> only.\<close>

definition file_bot :: SeshetBot where
  "file_bot = (init_bot ''Bot'' None)
     \<lparr>log_file := ''logs/'',
      log_formats := map_of [(''privmsg'', ''to '')],
      bot_locale := map_of [(''date_fmt'', ''d''), (''time_fmt'', ''t''),
                            (''short_datetime_fmt'', ''s''), (''long_datetime_fmt'', ''l'')]\<rparr>"

text \<open>Two channels that share the user y.\<close>

definition two_channel_bot :: SeshetBot where
  "two_channel_bot = add_channel_names
     (add_channel_names bot0 (names_reply ''#a'' [''x'', ''y'']))
     (names_reply ''#b'' [''y'', ''z''])"

text \<open>A bot named Seshet with two modules that list its nickname.\<close>

definition seshet_module :: "string \<Rightarrow> module" where
  "seshet_module n =
     \<lparr>mod_name = n, cmd_prefix = [], event_types = [''PRIVMSG''], enabled = True,
      whitelist = [], blacklist = [], enicks = [''Seshet''], dnicks = [], echannels = [],
      dchannels = [], commands = Some []\<rparr>"

definition seshet_bot :: SeshetBot where
  "seshet_bot = init_bot ''Seshet''
     (Some \<lparr>event_log = [], modules = [seshet_module ''one'', seshet_module ''two'']\<rparr>)"

definition hello_event :: event where
  "hello_event = mk_event ''PRIVMSG'' ''A'' ''#c'' ''Seshet: hello''"

section \<open>The activity cache is bounded and first-in first-out\<close>

lemma trim_log_nonneg:
  "0 \<le> sz \<Longrightarrow> trim_log sz l = Inr (drop (length l - nat sz) l)"
proof (induction l)
  case Nil
  then show ?case by simp
next
  case (Cons x xs)
  show ?case
  proof (cases "int (length (x # xs)) > sz")
    case True
    with Cons.prems have "length (x # xs) - nat sz = Suc (length xs - nat sz)"
      by auto
    with True Cons show ?thesis by simp
  next
    case False
    then have "length (x # xs) - nat sz = 0" by auto
    with False show ?thesis by simp
  qed
qed

lemma log_message_nonneg:
  assumes "0 \<le> log_size c"
  shows "log_message t c u m =
     (c\<lparr>message_log :=
          drop (Suc (length (message_log c)) - nat (log_size c))
               (message_log c @ [(t, author_ident u, m)])\<rparr>, None)"
  using assms by (simp add: log_message_def trim_log_nonneg)

lemma drop_snoc_window:
  "drop (Suc (length (drop (length xs - n) xs)) - n) (drop (length xs - n) xs @ [y])
     = drop (Suc (length xs) - n) (xs @ [y])"
proof (cases "length xs \<le> n")
  case True
  then show ?thesis by simp
next
  case False
  then have len: "length (drop (length xs - n) xs) = n" by simp
  have s: "Suc (length xs) - n = Suc (length xs - n)" using False by simp
  have "drop (Suc (length xs - n)) (xs @ [y]) = drop 1 (drop (length xs - n) (xs @ [y]))"
    by simp
  also have "\<dots> = drop 1 (drop (length xs - n) xs @ [y])"
    by simp
  finally show ?thesis using len s by simp
qed

text \<open>
  Once the log is a window of at most \<open>N\<close> entries at the end of what was inserted, it
  stays one: the general form, for any number of further messages.
\<close>

lemma log_messages_window:
  assumes "log_size c = int N" and "message_log c = drop (length pre - N) pre"
  shows "log_messages c ms =
     (c\<lparr>message_log :=
          drop (length (pre @ map entry_of ms) - N) (pre @ map entry_of ms)\<rparr>, None)"
  using assms
proof (induction ms arbitrary: c pre)
  case Nil
  then show ?case by simp
next
  case (Cons x ms)
  obtain t u m where x: "x = (t, u, m)" by (cases x) auto
  let ?c = "c\<lparr>message_log :=
      drop (Suc (length pre) - N) (pre @ [(t, author_ident u, m)])\<rparr>"
  have "drop (Suc (length (message_log c)) - N) (message_log c @ [(t, author_ident u, m)])
      = drop (Suc (length pre) - N) (pre @ [(t, author_ident u, m)])"
    unfolding Cons.prems(2) by (rule drop_snoc_window)
  then have step: "log_message t c u m = (?c, None)"
    using Cons.prems(1) by (simp add: log_message_nonneg)
  have "log_messages ?c ms =
     (?c\<lparr>message_log :=
          drop (length ((pre @ [entry_of x]) @ map entry_of ms) - N)
               ((pre @ [entry_of x]) @ map entry_of ms)\<rparr>, None)"
    by (rule Cons.IH) (use Cons.prems x in \<open>simp_all add: entry_of_def\<close>)
  with step x show ?case by simp
qed

text \<open>
  Claim C5. For a channel with cap \<open>N\<close>, a call of \<open>log_message\<close> returns normally and
  leaves at most \<open>N\<close> entries, whatever the log held before; and after \<open>N + k\<close> messages
  were logged into a channel with an empty log, the oldest \<open>k\<close> are gone and the log is
  exactly the remaining \<open>N\<close>, in the order of insertion.
\<close>

theorem message_log_bounded_fifo:
  assumes "log_size c = int N"
  shows "snd (log_message t c u m) = None
       \<and> length (message_log (fst (log_message t c u m))) \<le> N
       \<and> (message_log c = [] \<and> length ms = N + k \<longrightarrow>
            snd (log_messages c ms) = None
          \<and> message_log (fst (log_messages c ms)) = drop k (map entry_of ms)
          \<and> length (message_log (fst (log_messages c ms))) = N)"
proof -
  have one: "log_message t c u m =
     (c\<lparr>message_log :=
          drop (Suc (length (message_log c)) - N)
               (message_log c @ [(t, author_ident u, m)])\<rparr>, None)"
    using assms by (simp add: log_message_nonneg)
  have many: "log_messages c ms =
       (c\<lparr>message_log := drop (length ms - N) (map entry_of ms)\<rparr>, None)"
    if "message_log c = []"
    using log_messages_window [of c N "[]" ms] assms that by simp
  show ?thesis using one many by auto
qed

theorem message_log_bounded_fifo_witness:
  "log_size (new_channel ''#a'' {} 2) = int 2
   \<and> message_log (fst (log_messages (new_channel ''#a'' {} 2)
        [(1, AuthorIdent ''a'', ''x''), (2, AuthorIdent ''b'', ''y''), (3, AuthorIdent ''a'', ''z'')]))
     = [(2, ''b'', ''y''), (3, ''a'', ''z'')]"
proof -
  have h: "log_size (new_channel ''#a'' {} 2) = int 2"
    by (simp add: new_channel_def)
  have e: "message_log (new_channel ''#a'' {} 2) = []"
    by (simp add: new_channel_def)
  show ?thesis
    using h e message_log_bounded_fifo [OF h, where k = 1 and
        ms = "[(1, AuthorIdent ''a'', ''x''), (2, AuthorIdent ''b'', ''y''), (3, AuthorIdent ''a'', ''z'')]"]
    by (simp add: entry_of_def)
qed


section \<open>What logging and dispatch leave alone\<close>

lemma write_line_frame:
  "bot_channels (fst (write_line E s tpl f)) = bot_channels s
   \<and> bot_users (fst (write_line E s tpl f)) = bot_users s
   \<and> heap (fst (write_line E s tpl f)) = heap s
   \<and> db (fst (write_line E s tpl f)) = db s
   \<and> nickname (fst (write_line E s tpl f)) = nickname s"
  by (simp add: write_line_def Let_def split: sum.splits)

lemma log_to_file_frame:
  "bot_channels (fst (log_to_file E s a b c d e f)) = bot_channels s
   \<and> bot_users (fst (log_to_file E s a b c d e f)) = bot_users s
   \<and> heap (fst (log_to_file E s a b c d e f)) = heap s
   \<and> nickname (fst (log_to_file E s a b c d e f)) = nickname s"
  by (simp add: log_to_file_def Let_def write_line_frame split: option.splits)

lemma bot_log_frame:
  "bot_channels (fst (bot_log E s a b c d e f)) = bot_channels s
   \<and> bot_users (fst (bot_log E s a b c d e f)) = bot_users s
   \<and> heap (fst (bot_log E s a b c d e f)) = heap s
   \<and> nickname (fst (bot_log E s a b c d e f)) = nickname s"
  by (simp add: bot_log_def log_db_def log_to_file_frame split: option.splits)

lemma invoke_loop_frame:
  "bot_channels (fst (invoke_loop s e argv ms)) = bot_channels s
   \<and> bot_users (fst (invoke_loop s e argv ms)) = bot_users s
   \<and> heap (fst (invoke_loop s e argv ms)) = heap s"
  by (induction s e argv ms rule: invoke_loop.induct)
     (auto split: option.splits prod.splits)

lemma bot_run_modules_frame:
  "bot_channels (fst (bot_run_modules s e)) = bot_channels s
   \<and> bot_users (fst (bot_run_modules s e)) = bot_users s
   \<and> heap (fst (bot_run_modules s e)) = heap s"
  by (simp add: bot_run_modules_def run_modules_def Let_def invoke_loop_frame
      split: option.splits sum.splits)


section \<open>The roster built from join, part, kick, quit and nick events\<close>

text \<open>
  None of the five handlers adds a channel: only the names reply does. From a bot
  without channels, a join or a part fails at \<^verbatim>\<open>self.channels[chan]\<close> and the channel
  dictionary stays empty.
\<close>

lemma handle_no_channels:
  "bot_channels s = [] \<Longrightarrow> bot_channels (fst (handle E s ev)) = []"
proof (cases ev)
  case (Pair k e)
  assume a: "bot_channels s = []"
  show ?thesis
  proof (cases k)
    case JOIN
    have "bot_channels (fst (on_join E s e)) = []"
      using a bot_log_frame [of E s "''join''" "source e" "[]" "target e" "e_user e @ ''@'' @ e_host e" "[]"]
      by (auto simp: on_join_def Let_def bot_run_modules_frame split: prod.splits option.splits)
    with Pair JOIN show ?thesis by simp
  next
    case PART
    have "bot_channels (fst (on_part E s e)) = []"
      using a bot_log_frame [of E s "''part''" "source e" "join_sp (drop 1 (params e))" "target e" "e_user e @ ''@'' @ e_host e" "[]"]
      by (auto simp: on_part_def leave_channel_def Let_def split: prod.splits option.splits)
    with Pair PART show ?thesis by simp
  next
    case KICK
    have "bot_channels (fst (on_kick E s e)) = []"
    proof (cases "params e")
      case Nil
      then show ?thesis using a by (simp add: on_kick_def)
    next
      case (Cons p ps)
      then show ?thesis
        using a bot_log_frame [of E s "''kick''" "source e" "join_sp ps" "target e" "e_user e @ ''@'' @ e_host e" p]
        by (auto simp: on_kick_def leave_channel_def Let_def split: prod.splits option.splits)
    qed
    with Pair KICK show ?thesis by simp
  next
    case QUIT
    have "bot_channels (fst (on_quit E s e)) = []"
      using a by (auto simp: on_quit_def Let_def split: prod.splits option.splits)
    with Pair QUIT show ?thesis by simp
  next
    case NICK
    have "bot_channels (fst (on_nick_change E s e)) = []"
      using a by (auto simp: on_nick_change_def Let_def split: prod.splits option.splits list.splits)
    with Pair NICK show ?thesis by simp
  qed
qed

lemma no_channels_invariant: "bot_channels s = [] \<Longrightarrow> membership_invariant s"
  by (simp add: membership_invariant_def list_all_iff split: prod.splits)

text \<open>
  Claim C1. Whatever sequence of JOIN, PART, KICK, QUIT and NICK events is applied to
  a bot whose users and channels dictionaries are empty, the membership invariant
  holds in the state after each event, whether its handler returned or raised.
\<close>

theorem membership_invariant_from_fresh:
  assumes "bot_users s = []" and "bot_channels s = []"
  shows "list_all membership_invariant (run_events E s evs)"
  using assms(2)
proof (induction evs arbitrary: s)
  case Nil
  then show ?case by simp
next
  case (Cons ev evs)
  have c: "bot_channels (fst (handle E s ev)) = []"
    using Cons.prems by (rule handle_no_channels)
  show ?case
    using c Cons.IH [OF c] by (simp add: Let_def no_channels_invariant)
qed

theorem membership_invariant_from_fresh_witness:
  "bot_users bot0 = [] \<and> bot_channels bot0 = []
   \<and> list_all membership_invariant
       (run_events plain_env bot0
          [(JOIN, mk_event ''JOIN'' ''A'' ''#c'' []), (NICK, mk_event ''NICK'' ''A'' ''B'' []),
           (PART, mk_event ''PART'' ''B'' ''#c'' []), (QUIT, mk_event ''QUIT'' ''B'' [] [])])"
proof -
  have u: "bot_users bot0 = []" by (simp add: bot0_def init_bot_def)
  have c: "bot_channels bot0 = []" by (simp add: bot0_def init_bot_def)
  show ?thesis
    using u c membership_invariant_from_fresh [OF u c] by blast
qed

section \<open>A message for a target that is no known channel\<close>

text \<open>
  Claim C10. When the target of a message is not a key of the channel dictionary,
  \<^verbatim>\<open>on_message\<close> leaves the store of channel objects, and so every message log, as it
  was; the event is logged, and when logging returns it is handed to module dispatch.
\<close>

theorem on_message_unknown_target:
  assumes "map_of (bot_channels s) (IRCstr (target e)) = None"
  shows "heap (fst (on_message E s e)) = heap s
       \<and> on_message E s e =
           (case bot_log E s ''privmsg'' (source e) (message e) (target e) [] [] of
              (s1, Some x) \<Rightarrow> (s1, Some x)
            | (s1, None) \<Rightarrow> bot_run_modules s1 e)"
  using assms bot_log_frame [of E s "''privmsg''" "source e" "message e" "target e" "[]" "[]"]
  by (auto simp: on_message_def bot_run_modules_frame split: prod.splits option.splits)

theorem on_message_unknown_target_witness:
  "map_of (bot_channels names_bot) (IRCstr (target (mk_event ''PRIVMSG'' ''A'' ''Bot'' ''hi''))) = None
   \<and> heap (fst (on_message plain_env names_bot (mk_event ''PRIVMSG'' ''A'' ''Bot'' ''hi'')))
       = heap names_bot
   \<and> map row_message (case db (fst (on_message plain_env names_bot
          (mk_event ''PRIVMSG'' ''A'' ''Bot'' ''hi''))) of None \<Rightarrow> [] | Some d \<Rightarrow> event_log d)
       = [''hi'']"
proof -
  have h: "map_of (bot_channels names_bot)
             (IRCstr (target (mk_event ''PRIVMSG'' ''A'' ''Bot'' ''hi''))) = None"
    by code_simp
  have l: "map row_message (case db (fst (on_message plain_env names_bot
          (mk_event ''PRIVMSG'' ''A'' ''Bot'' ''hi''))) of None \<Rightarrow> [] | Some d \<Rightarrow> event_log d)
       = [''hi'']"
    by code_simp
  show ?thesis
    using h l on_message_unknown_target [OF h, of plain_env] by blast
qed

section \<open>The address gate\<close>

lemma select_loop_addressed:
  "for_us d \<Longrightarrow>
     d_event (select_loop s m_low cn ms d) = d_event d \<and> for_us (select_loop s m_low cn ms d)"
proof (induction ms arbitrary: d)
  case Nil
  then show ?case by simp
next
  case (Cons m ms)
  have "for_us (select_step s m_low cn m d) \<and> d_event (select_step s m_low cn m d) = d_event d"
    using Cons.prems by (simp add: select_step_def gate_address_def Let_def)
  with Cons.IH [of "select_step s m_low cn m d"] show ?case by simp
qed

lemma gate_user_mono: "set fin \<subseteq> set (gate_user e m fin)"
  by (auto simp: gate_user_def)

lemma gate_channel_mono: "set fin \<subseteq> set (gate_channel e cn m fin)"
  by (auto simp: gate_channel_def split: option.splits)

lemma gate_address_mono: "set (fin_mods d) \<subseteq> set (fin_mods (gate_address s m_low m d))"
  by (auto simp: gate_address_def Let_def)

lemma select_step_mono: "set (fin_mods d) \<subseteq> set (fin_mods (select_step s m_low cn m d))"
proof -
  let ?d1 = "d\<lparr>fin_mods := gate_user (d_event d) m (fin_mods d)\<rparr>"
  let ?d2 = "gate_address s m_low m ?d1"
  have "set (fin_mods d) \<subseteq> set (fin_mods ?d1)" using gate_user_mono by simp
  also have "\<dots> \<subseteq> set (fin_mods ?d2)" by (rule gate_address_mono)
  also have "\<dots> \<subseteq> set (gate_channel (d_event ?d2) cn m (fin_mods ?d2))"
    by (rule gate_channel_mono)
  finally show ?thesis by (simp add: select_step_def Let_def)
qed

lemma select_loop_mono: "set (fin_mods d) \<subseteq> set (fin_mods (select_loop s m_low cn ms d))"
proof (induction ms arbitrary: d)
  case Nil
  then show ?case by simp
next
  case (Cons m ms)
  have "set (fin_mods d) \<subseteq> set (fin_mods (select_step s m_low cn m d))"
    by (rule select_step_mono)
  also have "\<dots> \<subseteq> set (fin_mods (select_loop s m_low cn ms (select_step s m_low cn m d)))"
    by (rule Cons.IH)
  finally show ?case by simp
qed

lemma select_step_addressed_includes:
  assumes "for_us d" and "nickname s \<in> set (enicks m)"
  shows "m \<in> set (fin_mods (select_step s m_low cn m d))"
proof -
  let ?d1 = "d\<lparr>fin_mods := gate_user (d_event d) m (fin_mods d)\<rparr>"
  have "m \<in> set (fin_mods (gate_address s m_low m ?d1))"
    using assms by (simp add: gate_address_def Let_def)
  then show ?thesis
    using gate_channel_mono [of "fin_mods (gate_address s m_low m ?d1)"]
    by (auto simp: select_step_def Let_def)
qed

lemma select_loop_addressed_includes:
  "for_us d \<Longrightarrow> m \<in> set ms \<Longrightarrow> nickname s \<in> set (enicks m) \<Longrightarrow>
     m \<in> set (fin_mods (select_loop s m_low cn ms d))"
proof (induction ms arbitrary: d)
  case Nil
  then show ?case by simp
next
  case (Cons m' ms)
  let ?d = "select_step s m_low cn m' d"
  have f: "for_us ?d"
    using Cons.prems(1) by (simp add: select_step_def gate_address_def Let_def)
  show ?case
  proof (cases "m = m'")
    case True
    then have "m \<in> set (fin_mods ?d)"
      using Cons.prems by (simp add: select_step_addressed_includes)
    then show ?thesis using select_loop_mono [of ?d s m_low cn ms] by auto
  next
    case False
    then have "m \<in> set ms" using Cons.prems(2) by simp
    then show ?thesis using Cons.IH [OF f _ Cons.prems(3)] by simp
  qed
qed

lemma length_str_lower: "length (str_lower x) = length x"
  by (simp add: str_lower_def)

text \<open>
  Claim C3. For a module that lists the bot's nickname and a message whose target is
  not the bot's nickname and whose text begins with the nickname (in any case), the
  selection step includes the module, rewrites the message to what follows the
  nickname and the separators \<^verbatim>\<open>,\<close> \<^verbatim>\<open>:\<close> and space, and sets \<^verbatim>\<open>for_us\<close>; the modules
  checked afterwards leave the event as that step left it, and those that list the
  nickname are included through the already-addressed branch.
\<close>

theorem address_gate_strips_once:
  assumes "nickname s \<in> set (enicks m)"
      and "target e \<noteq> nickname s"
      and "startswith (str_lower (message e)) (str_lower (nickname s))"
  shows "m \<in> set (fin_mods (select_step s (str_lower (message e)) cn m
                     \<lparr>d_event = e, for_us = False, fin_mods = []\<rparr>))
       \<and> message (d_event (select_step s (str_lower (message e)) cn m
                     \<lparr>d_event = e, for_us = False, fin_mods = []\<rparr>))
           = str_lstrip '',: '' (drop (length (nickname s)) (message e))
       \<and> for_us (select_step s (str_lower (message e)) cn m
                     \<lparr>d_event = e, for_us = False, fin_mods = []\<rparr>)
       \<and> d_event (select_loop s (str_lower (message e)) cn (m # ms)
                     \<lparr>d_event = e, for_us = False, fin_mods = []\<rparr>)
           = d_event (select_step s (str_lower (message e)) cn m
                     \<lparr>d_event = e, for_us = False, fin_mods = []\<rparr>)
       \<and> (\<forall>m' \<in> set ms. nickname s \<in> set (enicks m') \<longrightarrow>
             m' \<in> set (fin_mods (select_loop s (str_lower (message e)) cn (m # ms)
                     \<lparr>d_event = e, for_us = False, fin_mods = []\<rparr>)))"
proof -
  let ?d0 = "\<lparr>d_event = e, for_us = False, fin_mods = []\<rparr>"
  let ?low = "str_lower (message e)"
  let ?d1 = "select_step s ?low cn m ?d0"
  let ?g = "gate_address s ?low m (?d0\<lparr>fin_mods := gate_user e m []\<rparr>)"
  have g: "d_event ?g = strip_prefix (str_lower (nickname s)) e \<and> for_us ?g
           \<and> m \<in> set (fin_mods ?g)"
    using assms by (simp add: gate_address_def Let_def)
  have d1: "?d1 = ?g\<lparr>fin_mods := gate_channel (d_event ?g) cn m (fin_mods ?g)\<rparr>"
    by (simp add: select_step_def Let_def)
  have in1: "m \<in> set (fin_mods ?d1)"
    using g gate_channel_mono [of "fin_mods ?g" "d_event ?g" cn m] by (auto simp: d1)
  have msg: "message (d_event ?d1) = str_lstrip '',: '' (drop (length (nickname s)) (message e))"
    using g by (simp add: d1 strip_prefix_def length_str_lower)
  have fu: "for_us ?d1" using g by (simp add: d1)
  have loop: "select_loop s ?low cn (m # ms) ?d0 = select_loop s ?low cn ms ?d1" by simp
  have keep: "d_event (select_loop s ?low cn ms ?d1) = d_event ?d1"
    using select_loop_addressed [OF fu] by simp
  have later: "\<forall>m' \<in> set ms. nickname s \<in> set (enicks m') \<longrightarrow>
       m' \<in> set (fin_mods (select_loop s ?low cn ms ?d1))"
    using select_loop_addressed_includes [OF fu] by blast
  show ?thesis using in1 msg fu keep later unfolding loop by blast
qed

theorem address_gate_strips_once_witness:
  "nickname seshet_bot \<in> set (enicks (seshet_module ''one''))
   \<and> target hello_event \<noteq> nickname seshet_bot
   \<and> startswith (str_lower (message hello_event)) (str_lower (nickname seshet_bot))
   \<and> message (d_event (select_loop seshet_bot (str_lower (message hello_event))
        (Some {''a'', ''seshet''}) [seshet_module ''one'', seshet_module ''two'']
        \<lparr>d_event = hello_event, for_us = False, fin_mods = []\<rparr>)) = ''hello''
   \<and> seshet_module ''two'' \<in> set (fin_mods (select_loop seshet_bot
        (str_lower (message hello_event)) (Some {''a'', ''seshet''})
        [seshet_module ''one'', seshet_module ''two'']
        \<lparr>d_event = hello_event, for_us = False, fin_mods = []\<rparr>))"
proof -
  have h1: "nickname seshet_bot \<in> set (enicks (seshet_module ''one''))" by code_simp
  have h2: "target hello_event \<noteq> nickname seshet_bot" by code_simp
  have h3: "startswith (str_lower (message hello_event)) (str_lower (nickname seshet_bot))"
    by code_simp
  have h4: "nickname seshet_bot \<in> set (enicks (seshet_module ''two''))" by code_simp
  have v: "str_lstrip '',: '' (drop (length (nickname seshet_bot)) (message hello_event))
             = ''hello''"
    by code_simp
  show ?thesis
    using h1 h2 h3 h4 v
      address_gate_strips_once [OF h1 h2 h3, of "Some {''a'', ''seshet''}"
        "[seshet_module ''two'']"]
    by simp
qed

section \<open>The names reply\<close>

lemma chan_view_new:
  "chan_view (add_channel_names s e) (IRCstr (channel e))
     = Some (new_channel (IRCstr (channel e)) (set (map IRCstr (name_list e))) 100)"
  by (simp add: chan_view_def add_channel_names_def Let_def update_conv')

lemma chan_view_other:
  assumes "alloc_ok s" and "k \<noteq> IRCstr (channel e)"
  shows "chan_view (add_channel_names s e) k = chan_view s k"
proof (cases "map_of (bot_channels s) k")
  case None
  then show ?thesis using assms(2)
    by (simp add: chan_view_def add_channel_names_def Let_def update_conv')
next
  case (Some b)
  then have "(k, b) \<in> set (bot_channels s)" by (rule map_of_SomeD)
  then have "b < next_addr s" using assms(1) by (auto simp: alloc_ok_def list_all_iff)
  then show ?thesis using Some assms(2)
    by (simp add: chan_view_def add_channel_names_def Let_def update_conv')
qed

lemma set_alist_update: "set (AList.update k v al) \<subseteq> insert (k, v) (set al)"
  by (induction al) auto

lemma alloc_ok_add:
  assumes "alloc_ok s"
  shows "alloc_ok (add_channel_names s e)"
proof -
  have "b < Suc (next_addr s)"
    if "(k, b) \<in> set (AList.update (IRCstr (channel e)) (next_addr s) (bot_channels s))"
    for k b
  proof -
    from that set_alist_update
    have "(k, b) \<in> insert (IRCstr (channel e), next_addr s) (set (bot_channels s))"
      by fast
    then show ?thesis using assms by (auto simp: alloc_ok_def list_all_iff)
  qed
  then show ?thesis
    by (auto simp: alloc_ok_def add_channel_names_def Let_def list_all_iff)
qed

text \<open>
  Claim C6, as amended: the names reply always binds the channel name to a new
  channel with the received nicks and an empty message log, leaving the channels
  under other names as they are; applying it twice in a row gives the same channels
  as applying it once.
\<close>

theorem add_channel_names_overwrites:
  assumes "alloc_ok s"
  shows "chan_view (add_channel_names s e) (IRCstr (channel e))
           = Some (new_channel (IRCstr (channel e)) (set (map IRCstr (name_list e))) 100)
       \<and> (\<forall>k. k \<noteq> IRCstr (channel e) \<longrightarrow> chan_view (add_channel_names s e) k = chan_view s k)
       \<and> (\<forall>k. chan_view (add_channel_names (add_channel_names s e) e) k
                = chan_view (add_channel_names s e) k)"
proof -
  have ok: "alloc_ok (add_channel_names s e)" using assms by (rule alloc_ok_add)
  have "chan_view (add_channel_names (add_channel_names s e) e) k
          = chan_view (add_channel_names s e) k" for k
  proof (cases "k = IRCstr (channel e)")
    case True
    then show ?thesis by (simp add: chan_view_new)
  next
    case False
    then show ?thesis using ok by (simp add: chan_view_other)
  qed
  then show ?thesis using assms by (simp add: chan_view_new chan_view_other)
qed

theorem add_channel_names_overwrites_witness:
  "alloc_ok chatty_bot
   \<and> chan_view (add_channel_names chatty_bot (names_reply ''#c'' [''A''])) ''#c''
       = Some (new_channel ''#c'' {''a''} 100)
   \<and> chan_view (add_channel_names (add_channel_names chatty_bot (names_reply ''#c'' [''A'']))
        (names_reply ''#c'' [''A''])) ''#c''
       = chan_view (add_channel_names chatty_bot (names_reply ''#c'' [''A''])) ''#c''"
proof -
  have h: "alloc_ok chatty_bot" by code_simp
  have i: "IRCstr (channel (names_reply ''#c'' [''A''])) = ''#c''" by code_simp
  have n: "set (map IRCstr (name_list (names_reply ''#c'' [''A'']))) = {''a''}" by code_simp
  show ?thesis
    using h i n add_channel_names_overwrites [OF h, of "names_reply ''#c'' [''A'']"]
    by simp
qed

text \<open>
  Claim C6 as stated fails: a channel that exists, with a message in its log, is
  replaced by the names reply and the log is lost. The names reply for \<^verbatim>\<open>#c\<close> was
  applied, a message was logged, and the same names reply is applied again.
\<close>

theorem names_reply_discards_log:
  "map_option message_log (chan_view chatty_bot ''#c'') = Some [(0, ''a'', ''hi'')]
   \<and> map_option message_log
        (chan_view (add_channel_names chatty_bot (names_reply ''#c'' [''A''])) ''#c'') = Some []
   \<and> chan_view (add_channel_names chatty_bot (names_reply ''#c'' [''A''])) ''#c''
        \<noteq> chan_view chatty_bot ''#c''"
  by code_simp


section \<open>Users unique to a channel\<close>

lemma other_users_loop_eq:
  "other_users_loop h chan as acc =
     acc \<union> \<Union> {users c | c. \<exists>a \<in> set as. h a = Some c \<and> name c \<noteq> chan}"
proof (induction as arbitrary: acc)
  case Nil
  then show ?case by simp
next
  case (Cons a as)
  show ?case
  proof (cases "h a")
    case None
    then show ?thesis using Cons.IH [of acc] by auto
  next
    case (Some c)
    then show ?thesis
      using Cons.IH [of "if name c \<noteq> chan then acc \<union> users c else acc"]
      by (auto split: if_splits)
  qed
qed

text \<open>
  Claim C8. For a known channel, \<^verbatim>\<open>get_unique_users\<close> returns the users of the channel
  that are in the user set of no channel known under another name.
\<close>

theorem get_unique_users_set_difference:
  assumes "map_of (bot_channels s) (IRCstr ch) = Some a"
      and "heap s a = Some c"
      and "keys_are_names s"
  shows "get_unique_users s ch =
     Inr {n \<in> users c. \<forall>k b c'. (k, b) \<in> set (bot_channels s) \<and> k \<noteq> IRCstr ch
                          \<and> heap s b = Some c' \<longrightarrow> n \<notin> users c'}"
proof -
  have nm: "name c' = k" if "(k, b) \<in> set (bot_channels s)" and "heap s b = Some c'" for k b c'
    using assms(3) that by (auto simp: keys_are_names_def list_all_iff)
  have "users c - \<Union> {users c' | c'. \<exists>b \<in> set (map snd (bot_channels s)).
                       heap s b = Some c' \<and> name c' \<noteq> IRCstr ch}
      = {n \<in> users c. \<forall>k b c'. (k, b) \<in> set (bot_channels s) \<and> k \<noteq> IRCstr ch
                          \<and> heap s b = Some c' \<longrightarrow> n \<notin> users c'}"
    using nm by (auto; force)
  then show ?thesis
    using assms(1,2) by (simp add: get_unique_users_def Let_def other_users_loop_eq)
qed



section \<open>The file logger\<close>

text \<open>
  Claim C9. With a complete locale and a template for the kind, a \<^verbatim>\<open>privmsg\<close> or
  \<^verbatim>\<open>action\<close> whose target is the bot's nickname is formatted with the sender as the
  target, and the line written is that formatted line; for a kind without a template
  the state, and so the file log, is unchanged, and with a complete locale nothing is
  raised.
\<close>

theorem file_log_target_and_drop:
  "(etype \<in> set [''privmsg'', ''action''] \<and> tgt = nickname s
      \<and> bot_locale s ''date_fmt'' = Some df \<and> bot_locale s ''time_fmt'' = Some tf
      \<and> bot_locale s ''short_datetime_fmt'' = Some sf
      \<and> bot_locale s ''long_datetime_fmt'' = Some lf
      \<and> log_formats s etype = Some tpl
    \<longrightarrow> log_to_file E s etype src msg tgt hostmask prms
          = write_line E s tpl (fields_of E s df tf sf lf etype src msg src hostmask prms)
      \<and> l_target (fields_of E s df tf sf lf etype src msg src hostmask prms) = src
      \<and> (snd (log_to_file E s etype src msg tgt hostmask prms) = None
           \<longrightarrow> (\<exists>p line.
                  str_format E tpl (fields_of E s df tf sf lf etype src msg src hostmask prms)
                    = Inr line
                  \<and> files (fst (log_to_file E s etype src msg tgt hostmask prms))
                    = files s @ [(p, line @ [CHR 0x0A])])))
   \<and> (log_formats s etype = None
    \<longrightarrow> fst (log_to_file E s etype src msg tgt hostmask prms) = s
      \<and> (bot_locale s ''date_fmt'' \<noteq> None \<and> bot_locale s ''time_fmt'' \<noteq> None
           \<and> bot_locale s ''short_datetime_fmt'' \<noteq> None
           \<and> bot_locale s ''long_datetime_fmt'' \<noteq> None
         \<longrightarrow> snd (log_to_file E s etype src msg tgt hostmask prms) = None))"
proof -
  have written: "\<exists>p line. str_format E tpl F = Inr line
          \<and> files (fst (write_line E s tpl F)) = files s @ [(p, line @ [CHR 0x0A])]"
    if "snd (write_line E s tpl F) = None" for F
    using that by (auto simp: write_line_def Let_def split: sum.splits if_splits)
  have one: "log_to_file E s etype src msg tgt hostmask prms
          = write_line E s tpl (fields_of E s df tf sf lf etype src msg src hostmask prms)"
    if "etype \<in> set [''privmsg'', ''action'']" "tgt = nickname s"
       "bot_locale s ''date_fmt'' = Some df" "bot_locale s ''time_fmt'' = Some tf"
       "bot_locale s ''short_datetime_fmt'' = Some sf"
       "bot_locale s ''long_datetime_fmt'' = Some lf" "log_formats s etype = Some tpl"
    using that by (simp add: log_to_file_def Let_def)
  have two: "fst (log_to_file E s etype src msg tgt hostmask prms) = s"
    if "log_formats s etype = None"
    using that by (simp add: log_to_file_def Let_def split: option.splits)
  have three: "snd (log_to_file E s etype src msg tgt hostmask prms) = None"
    if "log_formats s etype = None" "bot_locale s ''date_fmt'' \<noteq> None"
       "bot_locale s ''time_fmt'' \<noteq> None" "bot_locale s ''short_datetime_fmt'' \<noteq> None"
       "bot_locale s ''long_datetime_fmt'' \<noteq> None"
    using that by (auto simp: log_to_file_def Let_def split: option.splits)
  have tg: "l_target (fields_of E s df tf sf lf etype src msg src hostmask prms) = src"
    by (simp add: fields_of_def)
  show ?thesis
  proof (intro conjI impI, goal_cases)
    case 1
    then show ?case using one by blast
  next
    case 2
    show ?case by (rule tg)
  next
    case 3
    then have eq: "log_to_file E s etype src msg tgt hostmask prms
          = write_line E s tpl (fields_of E s df tf sf lf etype src msg src hostmask prms)"
      using one by blast
    with 3(2) written show ?case by simp
  next
    case 4
    then show ?case by (rule two)
  next
    case 5
    then show ?case using three by blast
  qed
qed

section \<open>Where the handlers fall short of their comments\<close>

text \<open>
  Claim C2, evaluated on the end-to-end scenario. The selection step strips the
  message to \<^verbatim>\<open>ping\<close> and selects the module twice (address gate and channel gate),
  but the tokens are split from the lowered message of before the loop, the first
  token is \<^verbatim>\<open>bot:\<close>, and no handler is called.
\<close>

theorem ping_addressed_in_channel_calls_no_handler:
  "snd (on_message plain_env ping_bot ping_event) = None
   \<and> invoked (fst (on_message plain_env ping_bot ping_event)) = []
   \<and> str_split (str_lower (message ping_event)) = [''bot:'', ''ping'']
   \<and> message (d_event (select_loop ping_bot (str_lower (message ping_event))
        (Some {''a'', ''b'', ''bot''}) [ping_module]
        \<lparr>d_event = ping_event, for_us = False, fin_mods = []\<rparr>)) = ''ping''
   \<and> fin_mods (select_loop ping_bot (str_lower (message ping_event))
        (Some {''a'', ''b'', ''bot''}) [ping_module]
        \<lparr>d_event = ping_event, for_us = False, fin_mods = []\<rparr>) = [ping_module, ping_module]"
  by code_simp

text \<open>
  The loop over the users never returns normally after it deleted a user: the
  dictionary is as long as before, or longer.
\<close>

lemma length_alist_update: "length al \<le> length (AList.update k v al)"
  by (induction al) auto

lemma prune_loop_returns_without_deleting:
  "snd (prune_loop s a us) = None \<Longrightarrow>
     length (bot_users s) \<le> length (bot_users (fst (prune_loop s a us)))"
proof (induction us arbitrary: s)
  case Nil
  then show ?case by simp
next
  case (Cons p us)
  obtain k u where p: "p = (k, u)" by (cases p) auto
  let ?u1 = "if a \<in> set (channels u) then u\<lparr>channels := remove1 a (channels u)\<rparr> else u"
  let ?s1 = "s\<lparr>bot_users := AList.update k ?u1 (bot_users s)\<rparr>"
  have len: "length (bot_users s) \<le> length (bot_users ?s1)"
    by (simp add: length_alist_update)
  show ?case
  proof (cases "length (channels ?u1) = 0")
    case True
    with Cons.prems p show ?thesis
      by (simp add: Let_def split: option.splits if_splits)
  next
    case False
    then have eq: "prune_loop s a (p # us) = prune_loop ?s1 a us"
      by (simp add: p Let_def)
    from Cons.prems have "snd (prune_loop ?s1 a us) = None" by (simp add: eq)
    from Cons.IH [OF this] len show ?thesis by (simp add: eq)
  qed
qed

text \<open>
  Claim C4, evaluated. The bot is in \<^verbatim>\<open>#c\<close> with A, whose only channel it is. When the
  bot parts, \<^verbatim>\<open>self.users[nick]\<close> raises KeyError, since \<^verbatim>\<open>on_join\<close> never stores the
  bot itself, and A stays in the roster with \<^verbatim>\<open>#c\<close> in its list. When A kicks the bot,
  \<^verbatim>\<open>on_kick\<close> parts the source of the event, which is A: A stays in the roster and the
  bot stays in the user set of \<^verbatim>\<open>#c\<close>.
\<close>

theorem bot_part_and_kick_prune_nothing:
  "snd (on_part plain_env bot1 (mk_event ''PART'' ''Bot'' ''#c'' [])) = Some KeyError
   \<and> roster_view (fst (on_part plain_env bot1 (mk_event ''PART'' ''Bot'' ''#c'' [])))
       = [(''a'', ''a'', [0])]
   \<and> snd (on_kick plain_env bot1
            ((mk_event ''KICK'' ''A'' ''#c'' [])\<lparr>params := [''Bot'', ''bye'']\<rparr>)) = None
   \<and> roster_view (fst (on_kick plain_env bot1
            ((mk_event ''KICK'' ''A'' ''#c'' [])\<lparr>params := [''Bot'', ''bye'']\<rparr>)))
       = [(''a'', ''a'', [])]
   \<and> map_option users (chan_view (fst (on_kick plain_env bot1
            ((mk_event ''KICK'' ''A'' ''#c'' [])\<lparr>params := [''Bot'', ''bye'']\<rparr>))) ''#c'')
       = Some {''bot''}"
  by code_simp

text \<open>With a channel in the dictionary, the nick change stops at the first loop.\<close>

lemma on_nick_change_with_channels:
  "bot_channels s \<noteq> [] \<Longrightarrow> on_nick_change E s e = (s, Some AttributeError)"
  by (cases "bot_channels s") (simp_all add: on_nick_change_def Let_def)

text \<open>
  Claim C7, evaluated. A is a known user in \<^verbatim>\<open>#c\<close>; when A changes its nick to B the
  handler raises AttributeError, the users dictionary still has A under its old key
  and \<^verbatim>\<open>#c\<close> still holds the old nick.
\<close>

theorem nick_change_in_a_channel_raises:
  "snd (on_nick_change plain_env bot1 (mk_event ''NICK'' ''A'' ''B'' [])) = Some AttributeError
   \<and> roster_view (fst (on_nick_change plain_env bot1 (mk_event ''NICK'' ''A'' ''B'' [])))
       = [(''a'', ''a'', [0])]
   \<and> map_option users
       (chan_view (fst (on_nick_change plain_env bot1 (mk_event ''NICK'' ''A'' ''B'' []))) ''#c'')
       = Some {''a'', ''bot''}"
  by code_simp


end
